theory Spec2Isabelle
  imports Main "HOL-Library.Char_ord" "HOL-Library.List_Lexorder"
begin

section \<open>Data model\<close>

text \<open>
  The tables the SQL of \<open>db-service\<close> reads and writes. The columns are the ones the
  statements name (\<open>n.\<close>, \<open>c.\<close> and \<open>u.\<close> are the aliases of the source's SQL).
  Numbers of the source are JavaScript numbers holding integers (the callers pass results of
  \<open>parseInt\<close> and id columns); they are \<open>int\<close> here. Fractions and \<open>NaN\<close> are
  outside the model.
\<close>

record news_row =
  n_id :: int
  n_title :: string
  n_slug :: string
  n_content :: string
  n_excerpt :: string
  n_image_url :: string
  n_category_id :: int
  n_author_id :: int
  n_status :: string
  n_is_featured :: int
  n_view_count :: int
  n_created_at :: int
  n_updated_at :: int

record category_row =
  c_id :: int
  c_name :: string
  c_slug :: string
  c_description :: "string option"

record user_row =
  u_id :: int
  u_name :: string

text \<open>\<open>NewsArticle\<close>: a row of \<open>SELECT n.*, c.name as category_name, u.name as author_name\<close>.\<close>

record news_article =
  row :: news_row
  category_name :: string
  author_name :: string

text \<open>\<open>CategoryWithCount\<close>: a row of \<open>SELECT c.*, COUNT(n.id) as news_count\<close>.\<close>

record category_with_count =
  category :: category_row
  news_count :: int

text \<open>\<open>NewsData\<close>, with the fields \<open>createNews\<close> and \<open>updateNews\<close> bind.\<close>

record news_data =
  title :: string
  slug :: string
  content :: string
  excerpt :: string
  imageUrl :: string
  categoryId :: int
  authorId :: int
  status :: string
  isFeatured :: bool

record database =
  news :: "news_row list"
  categories :: "category_row list"
  users :: "user_row list"
  auto_increment :: int

text \<open>
  What a cache entry holds. The source types \<open>data\<close> as \<open>unknown\<close> and the readers
  cast it, so a reader returns whatever was stored under its key; the three shapes that
  are ever stored are the three constructors.
\<close>

datatype payload =
    Article "news_article option"
  | NewsList "news_article list" int
  | Categories "category_with_count list"

record cache_entry =
  data :: payload
  timestamp :: int

datatype error = StoreError | TypeError

text \<open>
  The service instance (its \<open>cache\<close>) together with what it runs against: the backing
  store, the clock \<open>Date.now()\<close> reads (milliseconds), and for each query still to be
  issued whether the store raises on it and how long it takes. An empty \<open>outcomes\<close>
  list means every further query succeeds at once.
\<close>

record world =
  store :: database
  cache :: "string \<rightharpoonup> cache_entry"
  clock :: int
  outcomes :: "(bool \<times> nat) list"

section \<open>The query executor\<close>

text \<open>
  Modelled from the spec: \<open>executeQuery\<close> of \<open>./db\<close> is not among the sources. The spec
  has it accept a parameterized query and bound parameters and return rows or a mutation
  result, a failure raising an error. A statement is given here by its meaning: a function
  of the store and of \<open>NOW()\<close> to a result and the store after it. Whether the store rejects
  a statement (unreachable server, constraint violation, malformed parameter) is decided
  by \<open>outcomes\<close>, which every theorem below quantifies over; a rejected statement leaves
  the store as it was.
\<close>

definition executeQuery ::
  "(database \<Rightarrow> int \<Rightarrow> 'a \<times> database) \<Rightarrow> world \<Rightarrow> (error + 'a) \<times> world" where
  "executeQuery stmt w =
     (case outcomes w of
        [] \<Rightarrow> (case stmt (store w) (clock w) of (r, d) \<Rightarrow> (Inr r, w\<lparr>store := d\<rparr>))
      | (fails, latency) # rest \<Rightarrow>
          (let w1 = w\<lparr>clock := clock w + int latency, outcomes := rest\<rparr>
           in if fails then (Inl StoreError, w1)
              else (case stmt (store w1) (clock w1) of (r, d) \<Rightarrow> (Inr r, w1\<lparr>store := d\<rparr>))))"

text \<open>The store raises on the next query; the store answers the next \<open>k\<close> queries.\<close>

definition next_fails :: "world \<Rightarrow> bool" where
  "next_fails w = (case outcomes w of [] \<Rightarrow> False | (fails, latency) # rest \<Rightarrow> fails)"

definition answers :: "nat \<Rightarrow> world \<Rightarrow> bool" where
  "answers k w = list_all (\<lambda>oc. \<not> fst oc) (take k (outcomes w))"

subsection \<open>The statements of the service\<close>

text \<open>
  Modelled from the spec: the store that runs the statements is not among the sources.
  Each definition below gives one SQL text of \<open>db-service\<close> the meaning SQL gives it
  over the tables above; rows come in table order where the text asks for no order.
\<close>

definition published :: "news_row \<Rightarrow> bool" where
  "published n = (n_status n = ''published'')"

text \<open>
  \<open>FROM news n JOIN categories c ON n.category_id = c.id JOIN users u ON n.author_id = u.id\<close>:
  one row for every news row, matching category and matching user.
\<close>

definition joined :: "database \<Rightarrow> news_row list \<Rightarrow> news_article list" where
  "joined d ns =
     concat (map (\<lambda>n.
       concat (map (\<lambda>c.
         map (\<lambda>u. \<lparr>row = n, category_name = c_name c, author_name = u_name u\<rparr>)
           (filter (\<lambda>u. n_author_id n = u_id u) (users d)))
         (filter (\<lambda>c. n_category_id n = c_id c) (categories d)))) ns)"

text \<open>\<open>... WHERE n.slug = ? AND n.status = 'published'\<close>\<close>

definition select_news_by_slug :: "string \<Rightarrow> database \<Rightarrow> int \<Rightarrow> news_article list \<times> database" where
  "select_news_by_slug s d t =
     (joined d (filter (\<lambda>n. n_slug n = s \<and> published n) (news d)), d)"

text \<open>\<open>UPDATE news SET view_count = view_count + 1 WHERE id = ?\<close>\<close>

definition update_view_count :: "int \<Rightarrow> database \<Rightarrow> int \<Rightarrow> unit \<times> database" where
  "update_view_count newsId d t =
     ((), d\<lparr>news := map (\<lambda>n. if n_id n = newsId then n\<lparr>n_view_count := n_view_count n + 1\<rparr> else n)
                       (news d)\<rparr>)"

text \<open>
  \<open>LIKE\<close>: \<open>%\<close> stands for any run of characters, \<open>_\<close> for any one character, letters
  compare without case (the spec's case-insensitive "contains").
\<close>

definition lower :: "char \<Rightarrow> char" where
  "lower c = (if CHR ''A'' \<le> c \<and> c \<le> CHR ''Z'' then char_of (of_char c + (32::nat)) else c)"

fun like :: "string \<Rightarrow> string \<Rightarrow> bool" where
  "like [] s = (s = [])"
| "like (p # ps) s =
     (if p = CHR ''%''
      then like ps s \<or> (case s of [] \<Rightarrow> False | _ # s' \<Rightarrow> like (p # ps) s')
      else (case s of [] \<Rightarrow> False
            | c # s' \<Rightarrow> (p = CHR ''_'' \<or> lower p = lower c) \<and> like ps s'))"

text \<open>
  The \<open>WHERE\<close> clause \<open>getNewsList\<close> builds, the same for the list and for the count:
  \<open>n.status = 'published'\<close>, then \<open>AND n.category_id = ?\<close> when a category was bound,
  \<open>AND n.is_featured = 1\<close> when asked for, and
  \<open>AND (n.title LIKE ? OR n.content LIKE ? OR n.excerpt LIKE ?)\<close> when a pattern was bound.
\<close>

definition list_where :: "int option \<Rightarrow> bool \<Rightarrow> string option \<Rightarrow> news_row \<Rightarrow> bool" where
  "list_where cat feat pat n =
     (published n
      \<and> (case cat of None \<Rightarrow> True | Some c \<Rightarrow> n_category_id n = c)
      \<and> (if feat then n_is_featured n = 1 else True)
      \<and> (case pat of None \<Rightarrow> True
          | Some p \<Rightarrow> like p (n_title n) \<or> like p (n_content n) \<or> like p (n_excerpt n)))"

text \<open>
  \<open>SELECT n.*, ... [joins] WHERE ... ORDER BY n.created_at DESC LIMIT ? OFFSET ?\<close>.
  The sort is stable; a negative bound selects nothing or skips nothing (a store that
  rejects it instead is a failing outcome).
\<close>

definition select_news_list ::
  "int option \<Rightarrow> bool \<Rightarrow> string option \<Rightarrow> int \<Rightarrow> int \<Rightarrow> database \<Rightarrow> int \<Rightarrow> news_article list \<times> database" where
  "select_news_list cat feat pat lim off d t =
     (take (nat lim) (drop (nat off)
        (sort_key (\<lambda>a. - n_created_at (row a))
           (joined d (filter (list_where cat feat pat) (news d))))), d)"

text \<open>\<open>SELECT COUNT(*) as total FROM news n WHERE ...\<close>: always one row.\<close>

definition count_news ::
  "int option \<Rightarrow> bool \<Rightarrow> string option \<Rightarrow> database \<Rightarrow> int \<Rightarrow> int list \<times> database" where
  "count_news cat feat pat d t =
     ([int (length (filter (list_where cat feat pat) (news d)))], d)"

text \<open>
  \<open>SELECT c.*, COUNT(n.id) as news_count FROM categories c
   LEFT JOIN news n ON c.id = n.category_id AND n.status = 'published'
   GROUP BY c.id ORDER BY c.name\<close>: one row for each category id.
\<close>

fun group_by_id :: "int list \<Rightarrow> category_row list \<Rightarrow> category_row list" where
  "group_by_id seen [] = []"
| "group_by_id seen (c # cs) =
     (if c_id c \<in> set seen then group_by_id seen cs else c # group_by_id (c_id c # seen) cs)"

definition select_categories :: "database \<Rightarrow> int \<Rightarrow> category_with_count list \<times> database" where
  "select_categories d t =
     (sort_key (\<lambda>r. c_name (category r))
        (map (\<lambda>c. \<lparr>category = c,
                   news_count = int (length (filter (\<lambda>c'. c_id c' = c_id c) (categories d)))
                     * int (length (filter (\<lambda>n. n_category_id n = c_id c \<and> published n) (news d)))\<rparr>)
           (group_by_id [] (categories d))), d)"

text \<open>
  \<open>INSERT INTO news (...) VALUES (?, ?, ?, ?, ?, ?, ?, ?, ?, NOW(), NOW())\<close>: the result
  carries \<open>insertId\<close>. The view count takes the column default 0.
\<close>

definition insert_news :: "news_data \<Rightarrow> database \<Rightarrow> int \<Rightarrow> int \<times> database" where
  "insert_news nd d t =
     (auto_increment d,
      d\<lparr>news := news d @
           [\<lparr>n_id = auto_increment d, n_title = title nd, n_slug = slug nd,
             n_content = content nd, n_excerpt = excerpt nd, n_image_url = imageUrl nd,
             n_category_id = categoryId nd, n_author_id = authorId nd, n_status = status nd,
             n_is_featured = (if isFeatured nd then 1 else 0), n_view_count = 0,
             n_created_at = t, n_updated_at = t\<rparr>],
        auto_increment := auto_increment d + 1\<rparr>)"

text \<open>
  \<open>UPDATE news SET title = ?, ..., updated_at = NOW() WHERE id = ?\<close>: the result carries
  \<open>affectedRows\<close>, the number of rows matched.
\<close>

definition update_news :: "int \<Rightarrow> news_data \<Rightarrow> database \<Rightarrow> int \<Rightarrow> nat \<times> database" where
  "update_news i nd d t =
     (length (filter (\<lambda>n. n_id n = i) (news d)),
      d\<lparr>news := map (\<lambda>n. if n_id n = i
                          then n\<lparr>n_title := title nd, n_slug := slug nd, n_content := content nd,
                                 n_excerpt := excerpt nd, n_image_url := imageUrl nd,
                                 n_category_id := categoryId nd, n_status := status nd,
                                 n_is_featured := (if isFeatured nd then 1 else 0),
                                 n_updated_at := t\<rparr>
                          else n) (news d)\<rparr>)"

text \<open>\<open>DELETE FROM news WHERE id = ?\<close>\<close>

definition delete_news :: "int \<Rightarrow> database \<Rightarrow> int \<Rightarrow> nat \<times> database" where
  "delete_news i d t =
     (length (filter (\<lambda>n. n_id n = i) (news d)),
      d\<lparr>news := filter (\<lambda>n. n_id n \<noteq> i) (news d)\<rparr>)"

section \<open>The data access service\<close>

definition CACHE_TTL :: int where
  "CACHE_TTL = 1000 * 60 * 5"

definition isCacheValid :: "string \<Rightarrow> world \<Rightarrow> bool" where
  "isCacheValid cacheKey w =
     (case cache w cacheKey of
        None \<Rightarrow> False
      | Some e \<Rightarrow> clock w - timestamp e < CACHE_TTL)"

text \<open>
  \<open>this.cache[cacheKey].data\<close>: reading \<open>data\<close> of a missing entry raises a
  \<open>TypeError\<close>.
\<close>

definition cache_data :: "string \<Rightarrow> world \<Rightarrow> error + payload" where
  "cache_data cacheKey w =
     (case cache w cacheKey of None \<Rightarrow> Inl TypeError | Some e \<Rightarrow> Inr (data e))"

definition cache_store :: "string \<Rightarrow> payload \<Rightarrow> world \<Rightarrow> world" where
  "cache_store cacheKey p w =
     w\<lparr>cache := (cache w)(cacheKey \<mapsto> \<lparr>data = p, timestamp = clock w\<rparr>)\<rparr>"

text \<open>
  \<open>incrementViewCount\<close>: the \<open>catch\<close> logs and returns, so the promise resolves
  either way.
\<close>

definition incrementViewCount :: "int \<Rightarrow> world \<Rightarrow> (error + unit) \<times> world" where
  "incrementViewCount newsId w =
     (case executeQuery (update_view_count newsId) w of
        (Inl e, w1) \<Rightarrow> (Inr (), w1)
      | (Inr u, w1) \<Rightarrow> (Inr (), w1))"

text \<open>
  \<open>getNewsBySlug\<close>. The cache hit is outside the \<open>try\<close>; inside it, any error,
  also one of \<open>incrementViewCount\<close>, ends in \<open>return null\<close>.
\<close>

definition getNewsBySlug :: "string \<Rightarrow> world \<Rightarrow> (error + payload) \<times> world" where
  "getNewsBySlug s w =
     (let cacheKey = ''news_'' @ s in
      if isCacheValid cacheKey w then (cache_data cacheKey w, w)
      else
        (case executeQuery (select_news_by_slug s) w of
           (Inl e, w1) \<Rightarrow> (Inr (Article None), w1)
         | (Inr result, w1) \<Rightarrow>
             (let news = (case result of [] \<Rightarrow> None | a # _ \<Rightarrow> Some a);
                  w2 = cache_store cacheKey (Article news) w1
              in case news of
                   None \<Rightarrow> (Inr (Article news), w2)
                 | Some a \<Rightarrow>
                     (case incrementViewCount (n_id (row a)) w2 of
                        (Inl e, w3) \<Rightarrow> (Inr (Article None), w3)
                      | (Inr u, w3) \<Rightarrow> (Inr (Article news), w3)))))"

text \<open>
  A number inside a template literal is printed by \<open>Number::toString\<close>. Below
  \<open>2 ^ 53\<close> every \<open>int\<close> is a number of the source and prints as its decimal
  digits. A larger \<open>int\<close> is a number of the source when a double holds it (any other
  is first rounded to the nearest double, ties to the even mantissa, as reading its digits
  does); it prints as the shortest decimal that reads back as the same double, the nearest
  such and on a tie the even one, filled with zeros below \<open>1e21\<close> and in exponential
  notation from there on (\<open>1e+21\<close>); beyond the largest double it is \<open>Infinity\<close>.
\<close>

fun string_of_nat :: "nat \<Rightarrow> string" where
  "string_of_nat n =
     (if n < 10 then [char_of (48 + n)]
      else string_of_nat (n div 10) @ [char_of (48 + n mod 10)])"

declare string_of_nat.simps [simp del]

text \<open>The bits by which a number exceeds the 53 bits of a mantissa.\<close>

fun shift_of :: "nat \<Rightarrow> nat" where
  "shift_of n = (if n < 2 ^ 53 then 0 else Suc (shift_of (n div 2)))"

declare shift_of.simps [simp del]

definition to_double :: "nat \<Rightarrow> nat" where
  "to_double n =
     (let q = shift_of n; m = n div 2 ^ q; r = n mod 2 ^ q
      in (if 2 ^ q < 2 * r \<or> (2 * r = 2 ^ q \<and> odd m) then m + 1 else m) * 2 ^ q)"

text \<open>
  The decimal \<open>c\<close> reads back as the double \<open>v\<close> (at least \<open>2 ^ 53\<close>): it lies between
  the midpoints to the neighbours of \<open>v\<close>, a midpoint counting when the mantissa is even.
\<close>

definition reads_as :: "nat \<Rightarrow> nat \<Rightarrow> bool" where
  "reads_as v c =
     (let q = shift_of v; m = v div 2 ^ q;
          low = 2 * int v - (if m = 2 ^ 52 then 2 ^ (q - 1) else 2 ^ q);
          high = 2 * int v + 2 ^ q
      in if even m then low \<le> 2 * int c \<and> 2 * int c \<le> high
         else low < 2 * int c \<and> 2 * int c < high)"

text \<open>
  The shortest decimal for \<open>v\<close>: the multiple of the largest power of ten, below or above
  \<open>v\<close>, that reads back as \<open>v\<close>.
\<close>

definition shortest :: "nat \<Rightarrow> nat" where
  "shortest v =
     (case List.find
             (\<lambda>j. reads_as v (v div 10 ^ j * 10 ^ j) \<or> reads_as v (v div 10 ^ j * 10 ^ j + 10 ^ j))
             (rev [0..<Suc (length (string_of_nat v))]) of
        None \<Rightarrow> v
      | Some j \<Rightarrow>
          (let lo = v div 10 ^ j * 10 ^ j; hi = lo + 10 ^ j
           in if \<not> reads_as v hi then lo
              else if \<not> reads_as v lo then hi
              else if v - lo < hi - v then lo
              else if hi - v < v - lo then hi
              else if even (v div 10 ^ j) then lo else hi))"

definition exponential :: "nat \<Rightarrow> string" where
  "exponential c =
     (let ds = string_of_nat c; ms = rev (dropWhile (\<lambda>d. d = CHR ''0'') (rev ds))
      in (case ms of [] \<Rightarrow> [] | d # rest \<Rightarrow> d # (if rest = [] then [] else ''.'' @ rest))
         @ ''e+'' @ string_of_nat (length ds - 1))"

definition nat_to_string :: "nat \<Rightarrow> string" where
  "nat_to_string n =
     (if n < 2 ^ 53 then string_of_nat n
      else (let v = to_double n
            in if 2 ^ 1024 \<le> v then ''Infinity''
               else (let c = shortest v
                     in if c < 10 ^ 21 then string_of_nat c else exponential c)))"

definition number_to_string :: "int \<Rightarrow> string" where
  "number_to_string i =
     (if i < 0 then ''-'' @ nat_to_string (nat (- i)) else nat_to_string (nat i))"

definition string_of_bool :: "bool \<Rightarrow> string" where
  "string_of_bool b = (if b then ''true'' else ''false'')"

text \<open>\<open>undefined\<close> prints as \<open>undefined\<close>, a boolean as its name.\<close>

text \<open>A destructuring default, \<open>{ x = d }\<close>: \<open>d\<close> when the field is left out.\<close>

definition or_default :: "'a option \<Rightarrow> 'a \<Rightarrow> 'a" where
  "or_default x d = (case x of None \<Rightarrow> d | Some v \<Rightarrow> v)"

definition news_list_key :: "int \<Rightarrow> int \<Rightarrow> int option \<Rightarrow> bool \<Rightarrow> string option \<Rightarrow> string" where
  "news_list_key lim off cat feat search =
     ''news_list_'' @ number_to_string lim @ ''_'' @ number_to_string off @ ''_''
       @ (case cat of None \<Rightarrow> ''undefined'' | Some c \<Rightarrow> number_to_string c) @ ''_''
       @ string_of_bool feat @ ''_''
       @ (case search of None \<Rightarrow> ''undefined'' | Some q \<Rightarrow> q)"

text \<open>
  The pattern bound to the three \<open>LIKE\<close>s: none unless \<open>if (searchQuery)\<close>
  holds, which it does for a non-empty string.
\<close>

definition searchParam :: "string option \<Rightarrow> string option" where
  "searchParam searchQuery =
     (case searchQuery of
        None \<Rightarrow> None
      | Some q \<Rightarrow> if q = [] then None else Some (''%'' @ q @ ''%''))"

text \<open>
  \<open>getNewsList\<close>, its options one by one: \<open>None\<close> is a field left out, which takes
  the default of the destructuring.
\<close>

definition getNewsList ::
  "int option \<Rightarrow> int option \<Rightarrow> int option \<Rightarrow> bool option \<Rightarrow> string option \<Rightarrow> world
     \<Rightarrow> (error + payload) \<times> world" where
  "getNewsList limit' offset' categoryId' featured' searchQuery w =
     (let lim = or_default limit' 10;
          off = or_default offset' 0;
          feat = or_default featured' False;
          cacheKey = news_list_key lim off categoryId' feat searchQuery
      in if isCacheValid cacheKey w then (cache_data cacheKey w, w)
         else
           (let pat = searchParam searchQuery
            in case executeQuery (select_news_list categoryId' feat pat lim off) w of
                 (Inl e, w1) \<Rightarrow> (Inr (NewsList [] 0), w1)
               | (Inr rows, w1) \<Rightarrow>
                   (case executeQuery (count_news categoryId' feat pat) w1 of
                      (Inl e, w2) \<Rightarrow> (Inr (NewsList [] 0), w2)
                    | (Inr totalResult, w2) \<Rightarrow>
                        (let total = (case totalResult of [] \<Rightarrow> 0 | t # _ \<Rightarrow> t);
                             result = NewsList rows total
                         in (Inr result, cache_store cacheKey result w2)))))"

definition getCategories :: "world \<Rightarrow> (error + payload) \<times> world" where
  "getCategories w =
     (let cacheKey = ''categories'' in
      if isCacheValid cacheKey w then (cache_data cacheKey w, w)
      else
        (case executeQuery select_categories w of
           (Inl e, w1) \<Rightarrow> (Inr (Categories []), w1)
         | (Inr cats, w1) \<Rightarrow> (Inr (Categories cats), cache_store cacheKey (Categories cats) w1)))"

definition clearCache :: "world \<Rightarrow> world" where
  "clearCache w = w\<lparr>cache := Map.empty\<rparr>"

text \<open>The writes: the \<open>catch\<close> logs and throws the error again.\<close>

definition createNews :: "news_data \<Rightarrow> world \<Rightarrow> (error + int) \<times> world" where
  "createNews newsData w =
     (case executeQuery (insert_news newsData) w of
        (Inl e, w1) \<Rightarrow> (Inl e, w1)
      | (Inr insertId, w1) \<Rightarrow> (Inr insertId, clearCache w1))"

definition updateNews :: "int \<Rightarrow> news_data \<Rightarrow> world \<Rightarrow> (error + bool) \<times> world" where
  "updateNews i newsData w =
     (case executeQuery (update_news i newsData) w of
        (Inl e, w1) \<Rightarrow> (Inl e, w1)
      | (Inr affectedRows, w1) \<Rightarrow> (Inr (affectedRows > 0), clearCache w1))"

definition deleteNews :: "int \<Rightarrow> world \<Rightarrow> (error + bool) \<times> world" where
  "deleteNews i w =
     (case executeQuery (delete_news i) w of
        (Inl e, w1) \<Rightarrow> (Inl e, w1)
      | (Inr affectedRows, w1) \<Rightarrow> (Inr (affectedRows > 0), clearCache w1))"

section \<open>Mock mode\<close>

text \<open>
  \<open>mock-mode.ts\<close>: the two switches, computed from \<open>process.env\<close>.
  \<open>MOCK_MODE = process.env.NEXT_PUBLIC_MOCK_MODE === 'true' || true\<close> and
  \<open>DEBUG_MOCK = process.env.NEXT_PUBLIC_DEBUG_MOCK === 'true' || false\<close>.
\<close>

definition MOCK_MODE :: "(string \<rightharpoonup> string) \<Rightarrow> bool" where
  "MOCK_MODE env = (env ''NEXT_PUBLIC_MOCK_MODE'' = Some ''true'' \<or> True)"

definition DEBUG_MOCK :: "(string \<rightharpoonup> string) \<Rightarrow> bool" where
  "DEBUG_MOCK env = (env ''NEXT_PUBLIC_DEBUG_MOCK'' = Some ''true'' \<or> False)"

section \<open>The route handler of \<open>/api/news\<close>: \<open>POST\<close>\<close>

text \<open>
  The request as the \<open>POST\<close> case of \<open>handler\<close> reads it: what \<open>getSession\<close>
  gives (it may throw), and the JSON body, a field left out being \<open>None\<close>.
\<close>

record session_user =
  user_id :: int

record session =
  user :: "session_user option"

record post_body =
  b_title :: "string option"
  b_slug :: "string option"
  b_content :: "string option"
  b_excerpt :: "string option"
  b_imageUrl :: "string option"
  b_categoryId :: "int option"
  b_status :: "string option"
  b_isFeatured :: "bool option"

record request =
  session_result :: "error + session option"
  body :: "post_body option"

text \<open>The message of a response: a literal of the source, or the message of an error.\<close>

datatype message = Literal string | MessageOf error

record response =
  res_status :: nat
  res_success :: bool
  res_data_id :: "int option"
  res_message :: message

text \<open>\<open>!x\<close> for a string and for a number; \<open>x || d\<close>.\<close>

definition falsy_string :: "string option \<Rightarrow> bool" where
  "falsy_string x = (case x of None \<Rightarrow> True | Some v \<Rightarrow> v = [])"

definition falsy_number :: "int option \<Rightarrow> bool" where
  "falsy_number x = (case x of None \<Rightarrow> True | Some v \<Rightarrow> v = 0)"

definition string_or :: "string option \<Rightarrow> string \<Rightarrow> string" where
  "string_or x d = (case x of None \<Rightarrow> d | Some v \<Rightarrow> if v = [] then d else v)"

text \<open>
  The \<open>try\<close> block of \<open>handler\<close> on a \<open>POST\<close>, the value \<open>Inl\<close> being what it
  throws. \<open>mockMode\<close> is the imported \<open>MOCK_MODE\<close>; \<open>rnd\<close> is
  \<open>Math.floor(Math.random() * 1000)\<close>, a number from 0 to 999. The title, the slug,
  the content and the category are present where they are passed on: the validation
  before has returned otherwise.
\<close>

definition handler_try :: "bool \<Rightarrow> request \<Rightarrow> nat \<Rightarrow> world \<Rightarrow> (error + response) \<times> world" where
  "handler_try mockMode req rnd w =
     (case session_result req of
        Inl e \<Rightarrow> (Inl e, w)
      | Inr ses \<Rightarrow>
          (case body req of
             None \<Rightarrow> (Inl TypeError, w)
           | Some b \<Rightarrow>
               if (case ses of None \<Rightarrow> True | Some s \<Rightarrow> user s = None)
               then (Inr \<lparr>res_status = 401, res_success = False, res_data_id = None,
                          res_message = Literal ''Voce precisa estar autenticado para criar uma noticia''\<rparr>, w)
               else if falsy_string (b_title b) \<or> falsy_string (b_slug b)
                       \<or> falsy_string (b_content b) \<or> falsy_number (b_categoryId b)
               then (Inr \<lparr>res_status = 400, res_success = False, res_data_id = None,
                          res_message = Literal ''Dados incompletos. Titulo, slug, conteudo e categoria sao obrigatorios''\<rparr>, w)
               else if mockMode
               then (Inr \<lparr>res_status = 201, res_success = True, res_data_id = Some (int rnd + 100),
                          res_message = Literal ''Noticia criada com sucesso (modo mockado)''\<rparr>, w)
               else
                 (let userId = (case ses of
                                  None \<Rightarrow> 1
                                | Some s \<Rightarrow> (case user s of None \<Rightarrow> 1 | Some u \<Rightarrow> user_id u))
                  in case createNews
                         \<lparr>title = or_default (b_title b) [], slug = or_default (b_slug b) [],
                          content = or_default (b_content b) [],
                          excerpt = string_or (b_excerpt b) [],
                          imageUrl = string_or (b_imageUrl b) [],
                          categoryId = or_default (b_categoryId b) 0,
                          authorId = userId,
                          status = string_or (b_status b) ''draft'',
                          isFeatured = or_default (b_isFeatured b) False\<rparr> w of
                       (Inr newsId, w1) \<Rightarrow>
                         (Inr \<lparr>res_status = 201, res_success = True, res_data_id = Some newsId,
                               res_message = Literal ''Noticia criada com sucesso''\<rparr>, w1)
                     | (Inl dbError, w1) \<Rightarrow>
                         (Inr \<lparr>res_status = 201, res_success = True,
                               res_data_id = Some (int rnd + 100),
                               res_message = Literal ''Noticia criada com sucesso (modo fallback)''\<rparr>,
                          w1))))"

text \<open>
  \<open>handler\<close> on a \<open>POST\<close>: the \<open>try\<close> block and the \<open>catch\<close> around it. (The
  messages are the source's, without their accents; the \<open>error\<close> field of the 500 body,
  set in development only, is left out.)
\<close>

definition handler :: "bool \<Rightarrow> request \<Rightarrow> nat \<Rightarrow> world \<Rightarrow> response \<times> world" where
  "handler mockMode req rnd w =
     (case handler_try mockMode req rnd w of
        (Inr res, w1) \<Rightarrow> (res, w1)
      | (Inl e, w1) \<Rightarrow>
          if mockMode
          then (\<lparr>res_status = 201, res_success = True, res_data_id = Some (int rnd + 100),
                 res_message = Literal ''Noticia criada com sucesso (modo contingencia)''\<rparr>, w1)
          else (\<lparr>res_status = 500, res_success = False, res_data_id = None,
                 res_message = MessageOf e\<rparr>, w1))"

section \<open>A small store\<close>

definition wave :: news_row where
  "wave = \<lparr>n_id = 1, n_title = ''Onda gigante'', n_slug = ''onda-gigante'',
            n_content = ''Swell de inverno'', n_excerpt = ''Swell'', n_image_url = ''/w.jpg'',
            n_category_id = 1, n_author_id = 1, n_status = ''published'', n_is_featured = 1,
            n_view_count = 7, n_created_at = 500, n_updated_at = 500\<rparr>"

definition sketch :: news_row where
  "sketch = \<lparr>n_id = 2, n_title = ''Rascunho'', n_slug = ''rascunho'',
              n_content = ''A escrever'', n_excerpt = [], n_image_url = [],
              n_category_id = 2, n_author_id = 1, n_status = ''draft'', n_is_featured = 0,
              n_view_count = 0, n_created_at = 600, n_updated_at = 600\<rparr>"

definition small_store :: database where
  "small_store =
     \<lparr>news = [wave, sketch],
      categories = [\<lparr>c_id = 1, c_name = ''Surf'', c_slug = ''surf'', c_description = None\<rparr>,
                    \<lparr>c_id = 2, c_name = ''Ondas'', c_slug = ''ondas'', c_description = None\<rparr>],
      users = [\<lparr>u_id = 1, u_name = ''Ana''\<rparr>],
      auto_increment = 3\<rparr>"

definition wave_article :: news_article where
  "wave_article = \<lparr>row = wave, category_name = ''Surf'', author_name = ''Ana''\<rparr>"

text \<open>A world with a fresh cache, and one whose cache holds the category list.\<close>

definition fresh :: "(bool \<times> nat) list \<Rightarrow> world" where
  "fresh ocs = \<lparr>store = small_store, cache = Map.empty, clock = 1000, outcomes = ocs\<rparr>"

definition warm :: "(bool \<times> nat) list \<Rightarrow> world" where
  "warm ocs =
     \<lparr>store = small_store,
      cache = [''categories'' \<mapsto> \<lparr>data = Categories [], timestamp = 900\<rparr>],
      clock = 1000, outcomes = ocs\<rparr>"

text \<open>A world whose cache holds the article of the slug \<open>onda-gigante\<close>.\<close>

definition remembered :: "(bool \<times> nat) list \<Rightarrow> world" where
  "remembered ocs =
     \<lparr>store = small_store,
      cache = [''news_onda-gigante'' \<mapsto> \<lparr>data = Article (Some wave_article), timestamp = 900\<rparr>],
      clock = 1000, outcomes = ocs\<rparr>"

definition draft_data :: news_data where
  "draft_data = \<lparr>title = ''Novo'', slug = ''novo'', content = ''Texto'', excerpt = [],
                  imageUrl = [], categoryId = 1, authorId = 1, status = ''draft'',
                  isFeatured = False\<rparr>"

text \<open>A \<open>POST\<close> of a signed-in user with the required fields.\<close>

definition post_request :: request where
  "post_request =
     \<lparr>session_result = Inr (Some \<lparr>user = Some \<lparr>user_id = 1\<rparr>\<rparr>),
      body = Some \<lparr>b_title = Some ''Novo'', b_slug = Some ''novo'', b_content = Some ''Texto'',
                   b_excerpt = None, b_imageUrl = None, b_categoryId = Some 1,
                   b_status = None, b_isFeatured = None\<rparr>\<rparr>"

section \<open>Facts about the executor\<close>

lemmas small_defs = fresh_def warm_def small_store_def wave_def sketch_def wave_article_def
  draft_data_def published_def

lemmas run_defs = executeQuery_def isCacheValid_def cache_data_def cache_store_def clearCache_def
  next_fails_def answers_def

lemma executeQuery_fails:
  assumes "next_fails w"
  obtains lat rest where "outcomes w = (True, lat) # rest"
    "executeQuery stmt w = (Inl StoreError, w\<lparr>clock := clock w + int lat, outcomes := rest\<rparr>)"
  using assms
  by (auto simp: next_fails_def executeQuery_def split: list.splits)

lemma executeQuery_answers:
  assumes "\<not> next_fails w"
  obtains w1 where
    "executeQuery stmt w =
       (Inr (fst (stmt (store w) (clock w1))), w1\<lparr>store := snd (stmt (store w) (clock w1))\<rparr>)"
    "cache w1 = cache w" "store w1 = store w" "clock w \<le> clock w1"
    "outcomes w1 = tl (outcomes w)"
proof (cases "outcomes w")
  case Nil
  show ?thesis
    by (rule that[of w]) (simp_all add: executeQuery_def Nil split: prod.splits)
next
  case (Cons oc rest)
  obtain f lat where oc: "oc = (f, lat)" by (cases oc)
  have f: "\<not> f" using assms by (simp add: next_fails_def Cons oc)
  show ?thesis
    by (rule that[of "w\<lparr>clock := clock w + int lat, outcomes := rest\<rparr>"])
       (simp_all add: executeQuery_def Cons oc f split: prod.splits)
qed

lemma executeQuery_Inl:
  assumes "executeQuery stmt w = (Inl e, w')"
  shows "next_fails w \<and> e = StoreError \<and> cache w' = cache w \<and> store w' = store w
         \<and> clock w \<le> clock w'"
proof (cases "next_fails w")
  case True
  then show ?thesis using assms by (auto elim!: executeQuery_fails[of w stmt])
next
  case False
  then show ?thesis using assms by (auto elim!: executeQuery_answers[of w stmt])
qed

lemma executeQuery_Inr:
  assumes "executeQuery stmt w = (Inr r, w')"
  shows "\<not> next_fails w \<and> cache w' = cache w \<and> clock w \<le> clock w'
         \<and> (r, store w') = stmt (store w) (clock w') \<and> outcomes w' = tl (outcomes w)"
proof (cases "next_fails w")
  case True
  then show ?thesis using assms by (auto elim!: executeQuery_fails[of w stmt])
next
  case False
  then show ?thesis using assms by (auto elim!: executeQuery_answers[of w stmt])
qed

lemma executeQuery_cache: "executeQuery stmt w = (x, w') \<Longrightarrow> cache w' = cache w"
  by (cases x) (auto dest: executeQuery_Inl executeQuery_Inr)

lemma executeQuery_clock: "executeQuery stmt w = (x, w') \<Longrightarrow> clock w \<le> clock w'"
  by (cases x) (auto dest: executeQuery_Inl executeQuery_Inr)

lemma executeQuery_failed_store:
  "next_fails w \<Longrightarrow> executeQuery stmt w = (x, w') \<Longrightarrow> store w' = store w"
  by (cases x) (auto dest: executeQuery_Inl executeQuery_Inr)

lemma executeQuery_then_fails:
  "outcomes w = (False, l1) # (True, l2) # rest \<Longrightarrow> executeQuery stmt w = (Inr r, w1)
   \<Longrightarrow> next_fails w1"
  by (auto dest!: executeQuery_Inr simp: next_fails_def)

lemma executeQuery_cache_irrelevant:
  "executeQuery stmt (w\<lparr>cache := c\<rparr>) =
     (fst (executeQuery stmt w), (snd (executeQuery stmt w))\<lparr>cache := c\<rparr>)"
  by (auto simp: executeQuery_def Let_def split: list.splits prod.splits)

lemma answers_2_first: "answers 2 w \<Longrightarrow> \<not> next_fails w"
  by (cases "outcomes w") (auto simp: next_fails_def answers_def numeral_2_eq_2 split: prod.splits)

lemma answers_2_then:
  assumes "answers 2 w" and "executeQuery stmt w = (Inr r, w1)"
  shows "\<not> next_fails w1"
proof -
  have o: "outcomes w1 = tl (outcomes w)" using executeQuery_Inr[OF assms(2)] by simp
  show ?thesis
  proof (cases "outcomes w")
    case Nil
    then show ?thesis using o by (simp add: next_fails_def)
  next
    case (Cons oc rest)
    then show ?thesis using o assms(1)
      by (cases rest) (auto simp: next_fails_def answers_def numeral_2_eq_2 split: prod.splits)
  qed
qed

lemma answers_2_cases:
  assumes "\<not> answers 2 w"
  shows "next_fails w \<or> (\<exists>l1 l2 rest. outcomes w = (False, l1) # (True, l2) # rest)"
proof (cases "outcomes w")
  case Nil
  then show ?thesis using assms by (simp add: answers_def)
next
  case (Cons oc rest)
  note c1 = Cons
  show ?thesis
  proof (cases rest)
    case Nil
    then show ?thesis using assms c1
      by (cases oc) (auto simp: answers_def next_fails_def numeral_2_eq_2)
  next
    case (Cons oc2 rest2)
    then show ?thesis using assms c1
      by (cases oc; cases oc2) (auto simp: answers_def next_fails_def numeral_2_eq_2)
  qed
qed

section \<open>Facts about the cache and the view counter\<close>

lemma clearCache_invalid: "\<not> isCacheValid k ((clearCache w)\<lparr>clock := t, outcomes := fs\<rparr>)"
  by (simp add: isCacheValid_def clearCache_def)

lemma clearCache_forgets: "clearCache (w\<lparr>cache := c\<rparr>) = clearCache w"
  by (simp add: clearCache_def)

lemma cache_data_valid: "isCacheValid k w \<Longrightarrow> \<exists>p. cache_data k w = Inr p"
  by (auto simp: isCacheValid_def cache_data_def split: option.splits)

lemma incrementViewCount_resolves: "fst (incrementViewCount i w) = Inr ()"
  by (simp add: incrementViewCount_def split: prod.splits sum.splits)

lemma incrementViewCount_cache: "cache (snd (incrementViewCount i w)) = cache w"
  by (auto simp: incrementViewCount_def split: prod.splits sum.splits dest: executeQuery_cache)

lemma incrementViewCount_clock: "clock w \<le> clock (snd (incrementViewCount i w))"
  by (auto simp: incrementViewCount_def split: prod.splits sum.splits dest: executeQuery_clock)

lemma incrementViewCount_fails:
  "next_fails w \<Longrightarrow> store (snd (incrementViewCount i w)) = store w"
  by (auto simp: incrementViewCount_def split: prod.splits sum.splits
           dest: executeQuery_failed_store)

lemma list_all2_bumped:
  "list_all2 (\<lambda>n n'. n' = n \<or> n' = n\<lparr>n_view_count := n_view_count n + 1\<rparr>) ns
     (map (\<lambda>n. if n_id n = i then n\<lparr>n_view_count := n_view_count n + 1\<rparr> else n) ns)"
  by (simp add: list_all2_map2 list_all2_same)

lemma incrementViewCount_store:
  "list_all2 (\<lambda>n n'. n' = n \<or> n' = n\<lparr>n_view_count := n_view_count n + 1\<rparr>)
     (news (store w)) (news (store (snd (incrementViewCount i w))))"
proof (cases "next_fails w")
  case True
  then show ?thesis by (simp add: incrementViewCount_fails list_all2_same)
next
  case False
  then obtain w1 where
    "executeQuery (update_view_count i) w =
       (Inr (fst (update_view_count i (store w) (clock w1))),
        w1\<lparr>store := snd (update_view_count i (store w) (clock w1))\<rparr>)"
    by (rule executeQuery_answers[of w "update_view_count i"])
  then show ?thesis
    by (simp add: incrementViewCount_def update_view_count_def list_all2_bumped)
qed

section \<open>Writes and the cache\<close>

text \<open>
  C1. A write that completes clears the whole cache: after \<open>createNews\<close>, \<open>updateNews\<close>
  or \<open>deleteNews\<close> has returned a result, the cache is empty and no key is valid at any
  later time, so every read that follows goes to the store; and the world the write leaves
  is the same whatever the cache held before it, so nothing a later read returns was
  stored before the write.
\<close>

theorem write_clears_cache:
  "(createNews nd w = (Inr r, wc) \<longrightarrow>
      cache wc = Map.empty \<and> \<not> isCacheValid k (wc\<lparr>clock := t, outcomes := fs\<rparr>)
      \<and> createNews nd (w\<lparr>cache := c\<rparr>) = (Inr r, wc))
   \<and> (updateNews i nd w = (Inr bu, wu) \<longrightarrow>
      cache wu = Map.empty \<and> \<not> isCacheValid k (wu\<lparr>clock := t, outcomes := fs\<rparr>)
      \<and> updateNews i nd (w\<lparr>cache := c\<rparr>) = (Inr bu, wu))
   \<and> (deleteNews i w = (Inr bd, wd) \<longrightarrow>
      cache wd = Map.empty \<and> \<not> isCacheValid k (wd\<lparr>clock := t, outcomes := fs\<rparr>)
      \<and> deleteNews i (w\<lparr>cache := c\<rparr>) = (Inr bd, wd))"
  by (auto simp: createNews_def updateNews_def deleteNews_def executeQuery_cache_irrelevant
                 clearCache_invalid clearCache_forgets
           split: prod.splits sum.splits)
     (simp_all add: clearCache_def)

theorem write_clears_cache_witness:
  "isCacheValid ''categories'' (warm [])
   \<and> fst (createNews draft_data (warm [])) = Inr 3
   \<and> fst (updateNews 1 draft_data (warm [])) = Inr True
   \<and> fst (deleteNews 1 (warm [])) = Inr True
   \<and> \<not> isCacheValid ''categories''
         (snd (createNews draft_data (warm []))\<lparr>clock := 1001, outcomes := []\<rparr>)
   \<and> \<not> isCacheValid ''categories''
         (snd (updateNews 1 draft_data (warm []))\<lparr>clock := 1001, outcomes := []\<rparr>)
   \<and> \<not> isCacheValid ''categories''
         (snd (deleteNews 1 (warm []))\<lparr>clock := 1001, outcomes := []\<rparr>)"
proof -
  have fc: "fst (createNews draft_data (warm [])) = Inr 3"
    by (simp add: createNews_def insert_news_def run_defs small_defs)
  have fu: "fst (updateNews 1 draft_data (warm [])) = Inr True"
    by (simp add: updateNews_def update_news_def run_defs small_defs)
  have fd: "fst (deleteNews 1 (warm [])) = Inr True"
    by (simp add: deleteNews_def delete_news_def run_defs small_defs)
  have c: "createNews draft_data (warm []) = (Inr 3, snd (createNews draft_data (warm [])))"
    using fc by (metis prod.collapse)
  have u: "updateNews 1 draft_data (warm []) = (Inr True, snd (updateNews 1 draft_data (warm [])))"
    using fu by (metis prod.collapse)
  have d: "deleteNews 1 (warm []) = (Inr True, snd (deleteNews 1 (warm [])))"
    using fd by (metis prod.collapse)
  have v: "isCacheValid ''categories'' (warm [])"
    by (simp add: isCacheValid_def warm_def CACHE_TTL_def)
  show ?thesis
    using write_clears_cache[where nd = draft_data and w = "warm []" and r = 3
        and wc = "snd (createNews draft_data (warm []))" and k = "''categories''"
        and t = 1001 and fs = "[]" and c = Map.empty and i = 1 and bu = True
        and wu = "snd (updateNews 1 draft_data (warm []))" and bd = True
        and wd = "snd (deleteNews 1 (warm []))"] c u d v fc fu fd
    by blast
qed

text \<open>
  C10. A write that fails leaves the cache as it was: when \<open>createNews\<close>, \<open>updateNews\<close>
  or \<open>deleteNews\<close> ends in an error, the error is the store's, and the cache (and the
  store) are what they were before the call.
\<close>

theorem failed_write_keeps_cache:
  assumes "createNews nd w = (Inl e, w') \<or> updateNews i nd w = (Inl e, w')
           \<or> deleteNews i w = (Inl e, w')"
  shows "e = StoreError \<and> cache w' = cache w \<and> store w' = store w"
  using assms
  by (auto simp: createNews_def updateNews_def deleteNews_def
           split: prod.splits sum.splits dest: executeQuery_Inl)

theorem failed_write_keeps_cache_witness:
  "fst (createNews draft_data (warm [(True, 5)])) = Inl StoreError
   \<and> fst (updateNews 1 draft_data (warm [(True, 5)])) = Inl StoreError
   \<and> fst (deleteNews 1 (warm [(True, 5)])) = Inl StoreError
   \<and> cache (snd (createNews draft_data (warm [(True, 5)]))) = cache (warm [(True, 5)])
   \<and> cache (snd (updateNews 1 draft_data (warm [(True, 5)]))) = cache (warm [(True, 5)])
   \<and> cache (snd (deleteNews 1 (warm [(True, 5)]))) = cache (warm [(True, 5)])"
proof -
  let ?w = "warm [(True, 5)]"
  have c: "createNews draft_data ?w = (Inl StoreError, snd (createNews draft_data ?w))"
    by (simp add: createNews_def run_defs small_defs)
  have u: "updateNews 1 draft_data ?w = (Inl StoreError, snd (updateNews 1 draft_data ?w))"
    by (simp add: updateNews_def run_defs small_defs)
  have d: "deleteNews 1 ?w = (Inl StoreError, snd (deleteNews 1 ?w))"
    by (simp add: deleteNews_def run_defs small_defs)
  show ?thesis
    using failed_write_keeps_cache[OF disjI1, OF c]
      failed_write_keeps_cache[OF disjI2, OF disjI1, OF u]
      failed_write_keeps_cache[OF disjI2, OF disjI2, OF d] c u d
    by (metis fst_conv)
qed

text \<open>
  C4. An id that matches no row: when the store answers, \<open>updateNews\<close> and
  \<open>deleteNews\<close> return \<open>false\<close>, not an error.
\<close>

theorem missing_id_returns_false:
  assumes "\<forall>n \<in> set (news (store w)). n_id n \<noteq> i"
      and "\<not> next_fails w"
  shows "fst (updateNews i nd w) = Inr False \<and> fst (deleteNews i w) = Inr False"
proof -
  have none: "filter (\<lambda>n. n_id n = i) (news (store w)) = []"
    using assms(1) by (simp add: filter_empty_conv)
  have "fst (updateNews i nd w) = Inr False"
    using assms(2) none
    by (auto simp: updateNews_def update_news_def
             elim!: executeQuery_answers[of w "update_news i nd"])
  moreover have "fst (deleteNews i w) = Inr False"
    using assms(2) none
    by (auto simp: deleteNews_def delete_news_def
             elim!: executeQuery_answers[of w "delete_news i"])
  ultimately show ?thesis by simp
qed

theorem missing_id_returns_false_witness:
  "map n_id (news (store (fresh []))) = [1, 2] \<and> \<not> next_fails (fresh [])
   \<and> fst (updateNews 99 draft_data (fresh [])) = Inr False
   \<and> fst (deleteNews 99 (fresh [])) = Inr False"
proof -
  have a: "\<forall>n \<in> set (news (store (fresh []))). n_id n \<noteq> 99" by (simp add: small_defs)
  have b: "\<not> next_fails (fresh [])" by (simp add: next_fails_def fresh_def)
  have c: "map n_id (news (store (fresh []))) = [1, 2]" by (simp add: small_defs)
  show ?thesis using missing_id_returns_false[OF a b, of draft_data] b c by simp
qed

section \<open>Mock mode\<close>

text \<open>
  C6. The mock-mode switch as the code computes it: \<open>MOCK_MODE\<close> is true in every
  environment, also with \<open>NEXT_PUBLIC_MOCK_MODE\<close> set to \<open>false\<close>, so no setting of the
  environment disables mock mode.
\<close>

theorem MOCK_MODE_in_every_environment:
  "MOCK_MODE env \<and> MOCK_MODE [''NEXT_PUBLIC_MOCK_MODE'' \<mapsto> ''false'']"
  by (simp add: MOCK_MODE_def)

lemma DEBUG_MOCK_overridable:
  "DEBUG_MOCK [''NEXT_PUBLIC_DEBUG_MOCK'' \<mapsto> ''true''] \<and> \<not> DEBUG_MOCK Map.empty"
  by (simp add: DEBUG_MOCK_def)

section \<open>Reading an article by its slug\<close>

lemma getNewsBySlug_hit:
  "isCacheValid (''news_'' @ s) w \<Longrightarrow> getNewsBySlug s w = (cache_data (''news_'' @ s) w, w)"
  by (simp add: getNewsBySlug_def)

lemma getNewsBySlug_miss:
  assumes "\<not> isCacheValid (''news_'' @ s) w" and "getNewsBySlug s w = (r, w1)"
  shows "list_all2 (\<lambda>n n'. n' = n \<or> n' = n\<lparr>n_view_count := n_view_count n + 1\<rparr>)
           (news (store w)) (news (store w1))
         \<and> clock w \<le> clock w1
         \<and> (r = Inr (Article None) \<and> cache w1 = cache w
            \<or> cache_data (''news_'' @ s) w1 = r)"
proof (cases "next_fails w")
  case True
  then obtain lat rest where
    "executeQuery (select_news_by_slug s) w
       = (Inl StoreError, w\<lparr>clock := clock w + int lat, outcomes := rest\<rparr>)"
    by (rule executeQuery_fails[where stmt = "select_news_by_slug s"])
  then show ?thesis using assms by (auto simp: getNewsBySlug_def list_all2_same)
next
  case False
  then obtain w0 where w0:
    "executeQuery (select_news_by_slug s) w =
       (Inr (fst (select_news_by_slug s (store w) (clock w0))),
        w0\<lparr>store := snd (select_news_by_slug s (store w) (clock w0))\<rparr>)"
    "cache w0 = cache w" "store w0 = store w" "clock w \<le> clock w0"
    by (rule executeQuery_answers[of w "select_news_by_slug s"])
  let ?res = "fst (select_news_by_slug s (store w) (clock w0))"
  let ?w0 = "w0\<lparr>store := snd (select_news_by_slug s (store w) (clock w0))\<rparr>"
  have st0: "store ?w0 = store w" by (simp add: select_news_by_slug_def)
  show ?thesis
  proof (cases ?res)
    case Nil
    then have "r = Inr (Article None)" "w1 = cache_store (''news_'' @ s) (Article None) ?w0"
      using assms w0(1) by (auto simp: getNewsBySlug_def Let_def)
    then show ?thesis using w0(4)
      by (simp add: cache_store_def cache_data_def select_news_by_slug_def list_all2_same)
  next
    case (Cons a as)
    let ?w2 = "cache_store (''news_'' @ s) (Article (Some a)) ?w0"
    obtain u w3 where w3: "incrementViewCount (n_id (row a)) ?w2 = (u, w3)"
      by (cases "incrementViewCount (n_id (row a)) ?w2")
    have u: "u = Inr ()" using incrementViewCount_resolves[of "n_id (row a)" ?w2] w3 by simp
    have res: "r = Inr (Article (Some a))" "w1 = w3"
      using assms w0(1) Cons w3 u by (auto simp: getNewsBySlug_def Let_def)
    have "cache w3 = cache ?w2"
      using incrementViewCount_cache[of "n_id (row a)" ?w2] w3 by simp
    then have c: "cache_data (''news_'' @ s) w3 = Inr (Article (Some a))"
      by (simp add: cache_data_def cache_store_def)
    have "list_all2 (\<lambda>n n'. n' = n \<or> n' = n\<lparr>n_view_count := n_view_count n + 1\<rparr>)
            (news (store ?w2)) (news (store w3))"
      using incrementViewCount_store[of ?w2 "n_id (row a)"] w3 by simp
    moreover have "store ?w2 = store w" by (simp add: cache_store_def select_news_by_slug_def)
    moreover have "clock ?w2 \<le> clock w3"
      using incrementViewCount_clock[of ?w2 "n_id (row a)"] w3 by simp
    moreover have "clock ?w2 = clock w0" by (simp add: cache_store_def)
    ultimately show ?thesis using res c w0(4) by simp
  qed
qed

lemma select_news_by_slug_time:
  "fst (select_news_by_slug s d t) = fst (select_news_by_slug s d t')"
  "snd (select_news_by_slug s d t) = d"
  by (simp_all add: select_news_by_slug_def)

lemma getNewsBySlug_clock:
  assumes "getNewsBySlug s w = (r, w1)"
  shows "clock w \<le> clock w1"
proof (cases "isCacheValid (''news_'' @ s) w")
  case True
  then show ?thesis using assms by (auto simp: getNewsBySlug_hit)
next
  case False
  then show ?thesis using getNewsBySlug_miss[OF False assms] by simp
qed

lemma getNewsBySlug_reads_store:
  assumes "\<not> isCacheValid (''news_'' @ s) w" and "\<not> next_fails w"
      and "getNewsBySlug s w = (r, w1)"
  shows "\<exists>e. cache w1 (''news_'' @ s) = Some e \<and> r = Inr (data e)
           \<and> data e = Article (case fst (select_news_by_slug s (store w) (clock w)) of
                                  [] \<Rightarrow> None | a # x \<Rightarrow> Some a)
           \<and> clock w \<le> timestamp e"
proof -
  obtain w0 where w0:
    "executeQuery (select_news_by_slug s) w =
       (Inr (fst (select_news_by_slug s (store w) (clock w0))),
        w0\<lparr>store := snd (select_news_by_slug s (store w) (clock w0))\<rparr>)"
    "clock w \<le> clock w0"
    using assms(2) by (rule executeQuery_answers[of w "select_news_by_slug s"])
  let ?res = "fst (select_news_by_slug s (store w) (clock w))"
  let ?w0 = "w0\<lparr>store := snd (select_news_by_slug s (store w) (clock w0))\<rparr>"
  have res: "fst (select_news_by_slug s (store w) (clock w0)) = ?res"
    by (rule select_news_by_slug_time(1))
  show ?thesis
  proof (cases ?res)
    case Nil
    then have "r = Inr (Article None)" "w1 = cache_store (''news_'' @ s) (Article None) ?w0"
      using assms(1,3) w0(1) res by (auto simp: getNewsBySlug_def Let_def)
    then show ?thesis using w0(2) Nil by (simp add: cache_store_def)
  next
    case (Cons a as)
    let ?w2 = "cache_store (''news_'' @ s) (Article (Some a)) ?w0"
    obtain u w3 where w3: "incrementViewCount (n_id (row a)) ?w2 = (u, w3)"
      by (cases "incrementViewCount (n_id (row a)) ?w2")
    have u: "u = Inr ()" using incrementViewCount_resolves[of "n_id (row a)" ?w2] w3 by simp
    have r: "r = Inr (Article (Some a))" "w1 = w3"
      using assms(1,3) w0(1) res Cons w3 u by (auto simp: getNewsBySlug_def Let_def)
    have "cache w3 = cache ?w2"
      using incrementViewCount_cache[of "n_id (row a)" ?w2] w3 by simp
    then show ?thesis using r w0(2) Cons by (simp add: cache_store_def)
  qed
qed

text \<open>
  C2. Two reads of the same slug, the second less than \<open>CACHE_TTL\<close> (five minutes)
  after the first. When the first call finds no valid entry and the store answers its
  select, it returns the first row selected (the article, when a published article has the
  slug); the second call returns the same payload and changes nothing: no query is issued
  and no view count moves, so that across the two calls every row of the \<open>news\<close> table
  is as it was or has its view count exactly one higher. When the first call is itself
  answered from an entry that is still valid at the second call, both calls return that
  entry's payload and the store is not touched at all.
\<close>

theorem second_read_within_ttl:
  assumes "getNewsBySlug s w = (r1, w1)"
      and "clock w1 \<le> t"
      and "getNewsBySlug s (w1\<lparr>clock := t, outcomes := fs\<rparr>) = (r2, w2)"
  shows "(\<not> isCacheValid (''news_'' @ s) w \<and> \<not> next_fails w \<and> t - clock w < CACHE_TTL \<longrightarrow>
            r1 = Inr (Article (case fst (select_news_by_slug s (store w) (clock w)) of
                                 [] \<Rightarrow> None | a # x \<Rightarrow> Some a))
            \<and> r2 = r1
            \<and> w2 = w1\<lparr>clock := t, outcomes := fs\<rparr>
            \<and> list_all2 (\<lambda>n n'. n' = n \<or> n' = n\<lparr>n_view_count := n_view_count n + 1\<rparr>)
                 (news (store w)) (news (store w2)))
         \<and> (isCacheValid (''news_'' @ s) (w\<lparr>clock := t\<rparr>) \<longrightarrow>
            r2 = r1 \<and> w2 = w\<lparr>clock := t, outcomes := fs\<rparr>)"
proof (intro conjI impI)
  let ?k = "''news_'' @ s"
  let ?w1 = "w1\<lparr>clock := t, outcomes := fs\<rparr>"
  {
    assume a: "\<not> isCacheValid ?k w \<and> \<not> next_fails w \<and> t - clock w < CACHE_TTL"
    then obtain e where e: "cache w1 ?k = Some e" "r1 = Inr (data e)"
      "data e = Article (case fst (select_news_by_slug s (store w) (clock w)) of
                           [] \<Rightarrow> None | a # x \<Rightarrow> Some a)"
      "clock w \<le> timestamp e"
      using getNewsBySlug_reads_store[OF _ _ assms(1)] by blast
    have valid: "isCacheValid ?k ?w1" using e(1,4) a by (simp add: isCacheValid_def)
    have second: "r2 = cache_data ?k ?w1" "w2 = ?w1"
      using assms(3) getNewsBySlug_hit[OF valid] by auto
    have bump: "list_all2 (\<lambda>n n'. n' = n \<or> n' = n\<lparr>n_view_count := n_view_count n + 1\<rparr>)
                 (news (store w)) (news (store w1))"
      using getNewsBySlug_miss[OF _ assms(1)] a by blast
    show "r1 = Inr (Article (case fst (select_news_by_slug s (store w) (clock w)) of
                                 [] \<Rightarrow> None | a # x \<Rightarrow> Some a))"
      using e(2,3) by simp
    show "r2 = r1" using second(1) e(1,2) by (simp add: cache_data_def)
    show "w2 = ?w1" by (rule second(2))
    show "list_all2 (\<lambda>n n'. n' = n \<or> n' = n\<lparr>n_view_count := n_view_count n + 1\<rparr>)
                 (news (store w)) (news (store w2))"
      using bump second(2) by simp
  }
  {
    assume v: "isCacheValid ?k (w\<lparr>clock := t\<rparr>)"
    have "clock w \<le> t" using getNewsBySlug_clock[OF assms(1)] assms(2) by simp
    then have hit: "isCacheValid ?k w"
      using v by (auto simp: isCacheValid_def split: option.splits)
    then have first: "r1 = cache_data ?k w" "w1 = w"
      using assms(1) by (auto simp: getNewsBySlug_hit)
    have valid: "isCacheValid ?k ?w1"
      using v first(2) by (auto simp: isCacheValid_def split: option.splits)
    have second: "r2 = cache_data ?k ?w1" "w2 = ?w1"
      using assms(3) getNewsBySlug_hit[OF valid] by auto
    show "r2 = r1" using second(1) first by (simp add: cache_data_def)
    show "w2 = w\<lparr>clock := t, outcomes := fs\<rparr>" using second(2) first(2) by simp
  }
qed

theorem second_read_within_ttl_witness:
  "\<not> isCacheValid (''news_'' @ ''onda-gigante'') (fresh [(False, 20), (False, 30)])
   \<and> \<not> next_fails (fresh [(False, 20), (False, 30)])
   \<and> 300999 - clock (fresh [(False, 20), (False, 30)]) < CACHE_TTL
   \<and> fst (getNewsBySlug ''onda-gigante'' (fresh [(False, 20), (False, 30)]))
       = Inr (Article (Some wave_article))
   \<and> getNewsBySlug ''onda-gigante''
        (snd (getNewsBySlug ''onda-gigante'' (fresh [(False, 20), (False, 30)]))
           \<lparr>clock := 300999, outcomes := [(False, 0), (False, 0)]\<rparr>)
       = (Inr (Article (Some wave_article)),
          snd (getNewsBySlug ''onda-gigante'' (fresh [(False, 20), (False, 30)]))
           \<lparr>clock := 300999, outcomes := [(False, 0), (False, 0)]\<rparr>)
   \<and> map n_view_count (news (store (snd (getNewsBySlug ''onda-gigante''
                                             (fresh [(False, 20), (False, 30)]))))) = [8, 0]
   \<and> isCacheValid (''news_'' @ ''onda-gigante'') (remembered [(False, 0)]\<lparr>clock := 300899\<rparr>)
   \<and> getNewsBySlug ''onda-gigante'' (remembered [(False, 0)])
       = (Inr (Article (Some wave_article)), remembered [(False, 0)])
   \<and> getNewsBySlug ''onda-gigante'' (remembered [(False, 0)]\<lparr>clock := 300899, outcomes := [(False, 0)]\<rparr>)
       = (Inr (Article (Some wave_article)),
          remembered [(False, 0)]\<lparr>clock := 300899, outcomes := [(False, 0)]\<rparr>)"
proof -
  let ?w = "fresh [(False, 20), (False, 30)]"
  let ?first = "getNewsBySlug ''onda-gigante'' ?w"
  let ?w1 = "snd ?first\<lparr>clock := 300999, outcomes := [(False, 0), (False, 0)]\<rparr>"
  let ?second = "getNewsBySlug ''onda-gigante'' ?w1"
  have first: "?first =
      (Inr (Article (Some wave_article)),
       \<lparr>store = small_store\<lparr>news := [wave\<lparr>n_view_count := 8\<rparr>, sketch]\<rparr>,
        cache = [''news_onda-gigante'' \<mapsto> \<lparr>data = Article (Some wave_article), timestamp = 1020\<rparr>],
        clock = 1050, outcomes = []\<rparr>)"
    by (simp add: getNewsBySlug_def incrementViewCount_def select_news_by_slug_def
          update_view_count_def joined_def run_defs small_defs Let_def)
  have a: "?first = (fst ?first, snd ?first)" by simp
  have b: "clock (snd ?first) \<le> 300999" by (simp add: first)
  have c: "?second = (fst ?second, snd ?second)" by simp
  have h: "\<not> isCacheValid (''news_'' @ ''onda-gigante'') ?w" "\<not> next_fails ?w"
      "300999 - clock ?w < CACHE_TTL"
    by (simp_all add: isCacheValid_def next_fails_def fresh_def CACHE_TTL_def)
  have f1: "fst ?first = Inr (Article (Some wave_article))" by (simp add: first)
  have v: "map n_view_count (news (store (snd ?first))) = [8, 0]"
    unfolding first by (simp add: wave_def sketch_def)
  note t1 = second_read_within_ttl[OF a b c, THEN conjunct1, rule_format, OF conjI, OF h(1) conjI, OF h(2) h(3)]
  have s1: "?second = (Inr (Article (Some wave_article)), ?w1)"
    by (rule prod_eqI)
       (simp_all only: fst_conv snd_conv f1 t1[THEN conjunct2, THEN conjunct1]
          t1[THEN conjunct2, THEN conjunct2, THEN conjunct1])
  let ?r = "remembered [(False, 0)]"
  let ?r1 = "?r\<lparr>clock := 300899, outcomes := [(False, 0)]\<rparr>"
  have rv: "isCacheValid (''news_'' @ ''onda-gigante'') ?r"
    by (simp add: isCacheValid_def remembered_def CACHE_TTL_def)
  have rv': "isCacheValid (''news_'' @ ''onda-gigante'') (?r\<lparr>clock := 300899\<rparr>)"
    by (simp add: isCacheValid_def remembered_def CACHE_TTL_def)
  have rfirst: "getNewsBySlug ''onda-gigante'' ?r = (Inr (Article (Some wave_article)), ?r)"
    by (simp add: getNewsBySlug_hit[OF rv]) (simp add: cache_data_def remembered_def)
  have rb: "clock ?r \<le> 300899" by (simp add: remembered_def)
  have rc: "getNewsBySlug ''onda-gigante'' ?r1 =
      (fst (getNewsBySlug ''onda-gigante'' ?r1), snd (getNewsBySlug ''onda-gigante'' ?r1))" by simp
  note t2 = second_read_within_ttl[OF rfirst rb rc, THEN conjunct2, rule_format, OF rv']
  have s2: "getNewsBySlug ''onda-gigante'' ?r1 = (Inr (Article (Some wave_article)), ?r1)"
    by (rule prod_eqI) (simp_all only: fst_conv snd_conv t2[THEN conjunct1] t2[THEN conjunct2])
  show ?thesis by (intro conjI) (rule h f1 s1 v rv' rfirst s2)+
qed

lemma joined_Nil: "joined d [] = []"
  by (simp add: joined_def)

text \<open>
  C8. An absent result is cached too: when no published row has the slug, a first call that
  finds no valid entry and whose query the store answers returns \<open>null\<close>, stores
  \<open>null\<close> under \<open>news_\<close> followed by the slug with the time of the store, and
  leaves the store as it was; and in every world where that entry is still in the cache and
  less than \<open>CACHE_TTL\<close> has passed, the call returns \<open>null\<close> again and changes
  nothing: no query is issued and no view count moves.
\<close>

theorem absent_slug_is_cached:
  assumes "\<forall>n \<in> set (news (store w)). \<not> (n_slug n = s \<and> published n)"
      and "\<not> isCacheValid (''news_'' @ s) w"
      and "\<not> next_fails w"
      and "getNewsBySlug s w = (r, w1)"
  shows "r = Inr (Article None)
         \<and> cache w1 (''news_'' @ s) = Some \<lparr>data = Article None, timestamp = clock w1\<rparr>
         \<and> store w1 = store w
         \<and> (cache w' (''news_'' @ s) = cache w1 (''news_'' @ s) \<and> clock w' - clock w1 < CACHE_TTL
              \<longrightarrow> getNewsBySlug s w' = (Inr (Article None), w'))"
proof -
  have none: "filter (\<lambda>n. n_slug n = s \<and> published n) (news (store w)) = []"
    using assms(1) by (simp add: filter_empty_conv)
  have sel: "\<And>t. select_news_by_slug s (store w) t = ([], store w)"
    by (simp add: select_news_by_slug_def none joined_Nil)
  obtain w0 where w0:
    "executeQuery (select_news_by_slug s) w =
       (Inr (fst (select_news_by_slug s (store w) (clock w0))),
        w0\<lparr>store := snd (select_news_by_slug s (store w) (clock w0))\<rparr>)"
    "cache w0 = cache w" "store w0 = store w"
    using assms(3) by (rule executeQuery_answers[of w "select_news_by_slug s"])
  have first: "r = Inr (Article None)"
       "w1 = cache_store (''news_'' @ s) (Article None) (w0\<lparr>store := store w\<rparr>)"
    using assms(2,4) w0 sel by (auto simp: getNewsBySlug_def Let_def)
  have entry: "cache w1 (''news_'' @ s) = Some \<lparr>data = Article None, timestamp = clock w1\<rparr>"
    by (simp add: first(2) cache_store_def)
  have "store w1 = store w" by (simp add: first(2) cache_store_def w0(3))
  moreover have "getNewsBySlug s w' = (Inr (Article None), w')"
    if "cache w' (''news_'' @ s) = cache w1 (''news_'' @ s)" "clock w' - clock w1 < CACHE_TTL"
    using that entry by (simp add: getNewsBySlug_def isCacheValid_def cache_data_def)
  ultimately show ?thesis using first(1) entry by blast
qed

theorem absent_slug_is_cached_witness:
  "map n_slug (filter published (news (store (fresh [(False, 9)])))) = [''onda-gigante'']
   \<and> \<not> isCacheValid (''news_'' @ ''rascunho'') (fresh [(False, 9)])
   \<and> \<not> next_fails (fresh [(False, 9)])
   \<and> fst (getNewsBySlug ''rascunho'' (fresh [(False, 9)])) = Inr (Article None)
   \<and> cache (snd (getNewsBySlug ''rascunho'' (fresh [(False, 9)]))) (''news_'' @ ''rascunho'')
       = Some \<lparr>data = Article None, timestamp = 1009\<rparr>
   \<and> getNewsBySlug ''rascunho''
        (snd (getNewsBySlug ''rascunho'' (fresh [(False, 9)]))\<lparr>clock := 301008, outcomes := [(True, 0)]\<rparr>)
       = (Inr (Article None),
          snd (getNewsBySlug ''rascunho'' (fresh [(False, 9)]))\<lparr>clock := 301008, outcomes := [(True, 0)]\<rparr>)"
proof -
  let ?w = "fresh [(False, 9)]"
  let ?first = "getNewsBySlug ''rascunho'' ?w"
  let ?w' = "snd ?first\<lparr>clock := 301008, outcomes := [(True, 0)]\<rparr>"
  have a: "\<forall>n \<in> set (news (store ?w)). \<not> (n_slug n = ''rascunho'' \<and> published n)"
    by (simp add: small_defs)
  have a': "map n_slug (filter published (news (store ?w))) = [''onda-gigante'']"
    by (simp add: small_defs)
  have b: "\<not> isCacheValid (''news_'' @ ''rascunho'') ?w" by (simp add: isCacheValid_def fresh_def)
  have c: "\<not> next_fails ?w" by (simp add: next_fails_def fresh_def)
  have d: "?first = (fst ?first, snd ?first)" by simp
  note t = absent_slug_is_cached[OF a b c d, of ?w']
  have clk: "clock (snd ?first) = 1009"
    using b by (simp add: getNewsBySlug_def select_news_by_slug_def joined_def run_defs small_defs Let_def)
  have e: "cache ?w' (''news_'' @ ''rascunho'') = cache (snd ?first) (''news_'' @ ''rascunho'')"
    by simp
  have f: "clock ?w' - clock (snd ?first) < CACHE_TTL" by (simp add: clk CACHE_TTL_def)
  show ?thesis using t a' b c e f clk by simp
qed

text \<open>
  C9. A failing view-count increment does not reach the caller: \<open>incrementViewCount\<close>
  resolves in every world, and when the select of \<open>getNewsBySlug\<close> is answered with
  an article and the increment that follows fails, the call still returns that article
  (and the store is as it was).
\<close>

theorem increment_failure_keeps_article:
  assumes "\<not> isCacheValid (''news_'' @ s) w"
      and "outcomes w = (False, l1) # (True, l2) # rest"
      and "fst (select_news_by_slug s (store w) t) = a # as"
  shows "fst (incrementViewCount i w') = Inr ()
         \<and> fst (getNewsBySlug s w) = Inr (Article (Some a))
         \<and> store (snd (getNewsBySlug s w)) = store w"
proof -
  have sel: "\<And>t'. fst (select_news_by_slug s (store w) t') = a # as"
    using assms(3) by (simp add: select_news_by_slug_def)
  have "\<not> next_fails w" using assms(2) by (simp add: next_fails_def)
  then obtain w1 where w1:
    "executeQuery (select_news_by_slug s) w =
       (Inr (fst (select_news_by_slug s (store w) (clock w1))),
        w1\<lparr>store := snd (select_news_by_slug s (store w) (clock w1))\<rparr>)"
    "store w1 = store w" "outcomes w1 = tl (outcomes w)"
    by (rule executeQuery_answers[of w "select_news_by_slug s"])
  let ?w1 = "w1\<lparr>store := snd (select_news_by_slug s (store w) (clock w1))\<rparr>"
  let ?w2 = "cache_store (''news_'' @ s) (Article (Some a)) ?w1"
  have st: "store ?w2 = store w"
    by (simp add: cache_store_def select_news_by_slug_def w1(2))
  have "next_fails ?w2"
    using assms(2) w1(3) by (simp add: next_fails_def cache_store_def)
  then have inc: "store (snd (incrementViewCount (n_id (row a)) ?w2)) = store w"
    using st by (simp add: incrementViewCount_fails)
  obtain u w3 where w3: "incrementViewCount (n_id (row a)) ?w2 = (u, w3)"
    by (cases "incrementViewCount (n_id (row a)) ?w2")
  have u: "u = Inr ()" using incrementViewCount_resolves[of "n_id (row a)" ?w2] w3 by simp
  have "getNewsBySlug s w = (Inr (Article (Some a)), w3)"
    using assms(1) w1(1) sel w3 u by (simp add: getNewsBySlug_def Let_def)
  then show ?thesis using inc w3 by (simp add: incrementViewCount_resolves)
qed

theorem increment_failure_keeps_article_witness:
  "\<not> isCacheValid (''news_'' @ ''onda-gigante'') (fresh [(False, 1), (True, 2)])
   \<and> fst (select_news_by_slug ''onda-gigante'' (store (fresh [(False, 1), (True, 2)])) 0) = [wave_article]
   \<and> fst (getNewsBySlug ''onda-gigante'' (fresh [(False, 1), (True, 2)])) = Inr (Article (Some wave_article))
   \<and> store (snd (getNewsBySlug ''onda-gigante'' (fresh [(False, 1), (True, 2)]))) = small_store"
proof -
  let ?w = "fresh [(False, 1), (True, 2)]"
  have a: "\<not> isCacheValid (''news_'' @ ''onda-gigante'') ?w" by (simp add: isCacheValid_def fresh_def)
  have b: "outcomes ?w = (False, 1) # (True, 2) # []" by (simp add: fresh_def)
  have c: "fst (select_news_by_slug ''onda-gigante'' (store ?w) 0) = wave_article # []"
    by (simp add: select_news_by_slug_def joined_def small_defs)
  show ?thesis using increment_failure_keeps_article[OF a b c] a c by (simp add: fresh_def)
qed

section \<open>Errors of the store during a read\<close>

lemma getNewsBySlug_Inr: "\<exists>p. fst (getNewsBySlug s w) = Inr p"
  by (auto simp: getNewsBySlug_def Let_def dest: cache_data_valid split: prod.splits sum.splits list.splits option.splits)

lemma getNewsList_Inr: "\<exists>p. fst (getNewsList l f c b q w) = Inr p"
  by (auto simp: getNewsList_def Let_def dest: cache_data_valid split: prod.splits sum.splits)

lemma getCategories_Inr: "\<exists>p. fst (getCategories w) = Inr p"
  by (auto simp: getCategories_def Let_def dest: cache_data_valid split: prod.splits sum.splits)

lemma getNewsList_failed:
  assumes "\<not> isCacheValid (news_list_key (or_default l 10) (or_default f 0) c (or_default b False) q) w"
      and "\<not> answers 2 w"
  shows "fst (getNewsList l f c b q w) = Inr (NewsList [] 0)"
proof -
  from answers_2_cases[OF assms(2)] show ?thesis
  proof
    assume "next_fails w"
    then show ?thesis using assms(1)
      by (auto simp: getNewsList_def Let_def split: prod.splits sum.splits dest: executeQuery_Inr)
  next
    assume "\<exists>l1 l2 rest. outcomes w = (False, l1) # (True, l2) # rest"
    then obtain l1 l2 rest where o: "outcomes w = (False, l1) # (True, l2) # rest" by blast
    show ?thesis using assms(1)
      by (auto simp: getNewsList_def Let_def split: prod.splits sum.splits
               dest: executeQuery_Inr executeQuery_then_fails[OF o])
  qed
qed

text \<open>
  C3. No read ever returns an error, and a read whose query the store rejects returns
  "no data": \<open>getNewsBySlug\<close> returns \<open>null\<close>, \<open>getNewsList\<close> (when either of
  its two queries fails) an empty list with total 0, \<open>getCategories\<close> an empty list.
\<close>

theorem read_error_gives_no_data:
  "(\<exists>p. fst (getNewsBySlug s w) = Inr p)
   \<and> (\<exists>p. fst (getNewsList l f c b q w) = Inr p)
   \<and> (\<exists>p. fst (getCategories w) = Inr p)
   \<and> (\<not> isCacheValid (''news_'' @ s) w \<and> next_fails w
        \<longrightarrow> fst (getNewsBySlug s w) = Inr (Article None))
   \<and> (\<not> isCacheValid (news_list_key (or_default l 10) (or_default f 0) c (or_default b False) q) w
        \<and> \<not> answers 2 w
        \<longrightarrow> fst (getNewsList l f c b q w) = Inr (NewsList [] 0))
   \<and> (\<not> isCacheValid ''categories'' w \<and> next_fails w
        \<longrightarrow> fst (getCategories w) = Inr (Categories []))"
proof -
  have "\<not> isCacheValid (''news_'' @ s) w \<Longrightarrow> next_fails w
        \<Longrightarrow> fst (getNewsBySlug s w) = Inr (Article None)"
    by (auto simp: getNewsBySlug_def Let_def split: prod.splits sum.splits dest: executeQuery_Inr)
  moreover have "\<not> isCacheValid ''categories'' w \<Longrightarrow> next_fails w
        \<Longrightarrow> fst (getCategories w) = Inr (Categories [])"
    by (auto simp: getCategories_def Let_def split: prod.splits sum.splits dest: executeQuery_Inr)
  ultimately show ?thesis
    using getNewsBySlug_Inr[of s w] getNewsList_Inr[of l f c b q w] getCategories_Inr[of w]
      getNewsList_failed[of l f c b q w]
    by blast
qed

theorem read_error_gives_no_data_witness:
  "\<not> isCacheValid (''news_'' @ ''onda-gigante'') (fresh [(True, 3)])
   \<and> next_fails (fresh [(True, 3)])
   \<and> \<not> answers 2 (fresh [(False, 3), (True, 4)])
   \<and> fst (getNewsBySlug ''onda-gigante'' (fresh [(True, 3)])) = Inr (Article None)
   \<and> fst (getNewsList None None None None None (fresh [(False, 3), (True, 4)])) = Inr (NewsList [] 0)
   \<and> fst (getCategories (fresh [(True, 3)])) = Inr (Categories [])"
proof -
  have a: "\<not> isCacheValid k (fresh ocs)" for k ocs by (simp add: isCacheValid_def fresh_def)
  have b: "next_fails (fresh [(True, 3)])" by (simp add: next_fails_def fresh_def)
  have c: "\<not> answers 2 (fresh [(False, 3), (True, 4)])"
    by (simp add: answers_def fresh_def numeral_2_eq_2)
  show ?thesis
    using read_error_gives_no_data[of "''onda-gigante''" "fresh [(True, 3)]"]
      read_error_gives_no_data[of _ "fresh [(False, 3), (True, 4)]" None None None None None]
      a b c
    by blast
qed

section \<open>The total of a list\<close>

lemma getNewsList_reads_store:
  assumes "\<not> isCacheValid (news_list_key (or_default l 10) (or_default f 0) c (or_default b False) q) w"
      and "answers 2 w"
  shows "\<exists>rows. fst (getNewsList l f c b q w) =
           Inr (NewsList rows
                  (int (length (filter (list_where c (or_default b False) (searchParam q))
                                  (news (store w))))))"
proof -
  let ?sel = "select_news_list c (or_default b False) (searchParam q) (or_default l 10) (or_default f 0)"
  let ?cnt = "count_news c (or_default b False) (searchParam q)"
  obtain w1 where w1:
    "executeQuery ?sel w =
       (Inr (fst (?sel (store w) (clock w1))), w1\<lparr>store := snd (?sel (store w) (clock w1))\<rparr>)"
    "store w1 = store w"
    using answers_2_first[OF assms(2)] by (rule executeQuery_answers[of w ?sel])
  let ?w1 = "w1\<lparr>store := snd (?sel (store w) (clock w1))\<rparr>"
  have st: "store ?w1 = store w" by (simp add: select_news_list_def)
  have "\<not> next_fails ?w1" using answers_2_then[OF assms(2) w1(1)] .
  then obtain w2 where w2:
    "executeQuery ?cnt ?w1 =
       (Inr (fst (?cnt (store ?w1) (clock w2))), w2\<lparr>store := snd (?cnt (store ?w1) (clock w2))\<rparr>)"
    by (rule executeQuery_answers[of ?w1 ?cnt])
  have cnt: "fst (?cnt (store ?w1) (clock w2)) =
       [int (length (filter (list_where c (or_default b False) (searchParam q)) (news (store w))))]"
    unfolding st by (simp add: count_news_def)
  show ?thesis
    using assms(1) w1(1) w2 cnt by (simp add: getNewsList_def Let_def)
qed

text \<open>
  What the count statement gives: for the same store and the same filters (category,
  featured flag, search text), two calls of \<open>getNewsList\<close> that are answered by the
  store (no valid cache entry under their keys, no failing query) return the same
  \<open>total\<close> whatever their limits and offsets are: the number of rows the \<open>WHERE\<close>
  clause selects.
\<close>

lemma total_independent_of_limit_and_offset:
  assumes "store w2 = store w1"
      and "\<not> isCacheValid (news_list_key (or_default l1 10) (or_default o1 0) c (or_default f False) q) w1"
      and "\<not> isCacheValid (news_list_key (or_default l2 10) (or_default o2 0) c (or_default f False) q) w2"
      and "answers 2 w1" and "answers 2 w2"
  shows "\<exists>rows1 rows2 total.
           fst (getNewsList l1 o1 c f q w1) = Inr (NewsList rows1 total)
           \<and> fst (getNewsList l2 o2 c f q w2) = Inr (NewsList rows2 total)
           \<and> total = int (length (filter (list_where c (or_default f False) (searchParam q))
                                     (news (store w1))))"
  using getNewsList_reads_store[OF assms(2,4)] getNewsList_reads_store[OF assms(3,5)] assms(1)
  by auto

lemma total_independent_of_limit_and_offset_example:
  "store (fresh [(False, 7)]) = store (fresh [])
   \<and> answers 2 (fresh []) \<and> answers 2 (fresh [(False, 7)])
   \<and> fst (getNewsList (Some 1) (Some 0) None None None (fresh [])) = Inr (NewsList [wave_article] 1)
   \<and> fst (getNewsList (Some 5) (Some 1) None None None (fresh [(False, 7)])) = Inr (NewsList [] 1)"
proof -
  have a: "store (fresh [(False, 7)]) = store (fresh [])" by (simp add: fresh_def)
  have b: "\<not> isCacheValid k (fresh ocs)" for k ocs by (simp add: isCacheValid_def fresh_def)
  have c: "answers 2 (fresh [])" "answers 2 (fresh [(False, 7)])"
    by (simp_all add: answers_def fresh_def numeral_2_eq_2)
  have d: "fst (getNewsList (Some 1) (Some 0) None None None (fresh [])) = Inr (NewsList [wave_article] 1)"
    by (simp add: getNewsList_def b Let_def or_default_def searchParam_def)
       (simp add: executeQuery_def select_news_list_def count_news_def list_where_def joined_def
          small_defs Let_def)
  have e: "fst (getNewsList (Some 5) (Some 1) None None None (fresh [(False, 7)])) = Inr (NewsList [] 1)"
    by (simp add: getNewsList_def b Let_def or_default_def searchParam_def)
       (simp add: executeQuery_def select_news_list_def count_news_def list_where_def joined_def
          small_defs Let_def)
  show ?thesis
    using total_independent_of_limit_and_offset[OF a b b c(1) c(2),
        where ?l1.0 = "Some 1" and ?o1.0 = "Some 0" and c = None and f = None and q = None
          and ?l2.0 = "Some 5" and ?o2.0 = "Some 1"]
      a c d e by simp
qed

text \<open>
  The same across the cache: starting from a cleared cache, a second call with the same
  filters and any limit and offset returns the total of the first, whether it is answered
  from the cache or by the store.
\<close>

lemma getNewsList_reads_store_world:
  assumes "\<not> isCacheValid (news_list_key (or_default l 10) (or_default f 0) c (or_default b False) q) w"
      and "answers 2 w"
  shows "\<exists>rows w2. getNewsList l f c b q w =
           (Inr (NewsList rows
                  (int (length (filter (list_where c (or_default b False) (searchParam q))
                                  (news (store w)))))),
            cache_store (news_list_key (or_default l 10) (or_default f 0) c (or_default b False) q)
              (NewsList rows
                  (int (length (filter (list_where c (or_default b False) (searchParam q))
                                  (news (store w)))))) w2)
           \<and> store w2 = store w \<and> cache w2 = cache w"
proof -
  let ?sel = "select_news_list c (or_default b False) (searchParam q) (or_default l 10) (or_default f 0)"
  let ?cnt = "count_news c (or_default b False) (searchParam q)"
  obtain w1 where w1:
    "executeQuery ?sel w =
       (Inr (fst (?sel (store w) (clock w1))), w1\<lparr>store := snd (?sel (store w) (clock w1))\<rparr>)"
    "store w1 = store w" "cache w1 = cache w"
    using answers_2_first[OF assms(2)] by (rule executeQuery_answers[of w ?sel])
  let ?w1 = "w1\<lparr>store := snd (?sel (store w) (clock w1))\<rparr>"
  have st: "store ?w1 = store w" by (simp add: select_news_list_def)
  have "\<not> next_fails ?w1" using answers_2_then[OF assms(2) w1(1)] .
  then obtain w2 where w2:
    "executeQuery ?cnt ?w1 =
       (Inr (fst (?cnt (store ?w1) (clock w2))), w2\<lparr>store := snd (?cnt (store ?w1) (clock w2))\<rparr>)"
    "cache w2 = cache ?w1"
    by (rule executeQuery_answers[of ?w1 ?cnt])
  let ?w2 = "w2\<lparr>store := snd (?cnt (store ?w1) (clock w2))\<rparr>"
  have cnt: "fst (?cnt (store ?w1) (clock w2)) =
       [int (length (filter (list_where c (or_default b False) (searchParam q)) (news (store w))))]"
    unfolding st by (simp add: count_news_def)
  have "store ?w2 = store w \<and> cache ?w2 = cache w"
    using w2(2) w1(3) by (simp add: count_news_def select_news_list_def)
  moreover have "getNewsList l f c b q w =
           (Inr (NewsList (fst (?sel (store w) (clock w1)))
                  (int (length (filter (list_where c (or_default b False) (searchParam q))
                                  (news (store w)))))),
            cache_store (news_list_key (or_default l 10) (or_default f 0) c (or_default b False) q)
              (NewsList (fst (?sel (store w) (clock w1)))
                  (int (length (filter (list_where c (or_default b False) (searchParam q))
                                  (news (store w)))))) ?w2)"
    using assms(1) w1(1) w2(1) cnt by (simp add: getNewsList_def Let_def)
  ultimately show ?thesis by blast
qed

lemma getNewsList_total_after_cleared_cache:
  assumes "cache w = Map.empty" and "answers 2 w" and "answers 2 (w1\<lparr>clock := t, outcomes := fs\<rparr>)"
      and "getNewsList l1 o1 c f q w = (r1, w1)"
  shows "\<exists>rows1 rows2 total.
           r1 = Inr (NewsList rows1 total)
           \<and> fst (getNewsList l2 o2 c f q (w1\<lparr>clock := t, outcomes := fs\<rparr>)) = Inr (NewsList rows2 total)"
proof -
  let ?k1 = "news_list_key (or_default l1 10) (or_default o1 0) c (or_default f False) q"
  let ?k2 = "news_list_key (or_default l2 10) (or_default o2 0) c (or_default f False) q"
  let ?n = "int (length (filter (list_where c (or_default f False) (searchParam q)) (news (store w))))"
  let ?w1 = "w1\<lparr>clock := t, outcomes := fs\<rparr>"
  have miss: "\<not> isCacheValid ?k1 w" using assms(1) by (simp add: isCacheValid_def)
  obtain rows1 w0 where first: "getNewsList l1 o1 c f q w =
      (Inr (NewsList rows1 ?n), cache_store ?k1 (NewsList rows1 ?n) w0)"
      "store w0 = store w" "cache w0 = cache w"
    using getNewsList_reads_store_world[OF miss assms(2)] by blast
  have r1: "r1 = Inr (NewsList rows1 ?n)" using first(1) assms(4) by simp
  have w1: "store w1 = store w \<and> cache w1 = [?k1 \<mapsto> \<lparr>data = NewsList rows1 ?n, timestamp = clock w1\<rparr>]"
    using first assms(1,4) by (auto simp: cache_store_def)
  show ?thesis
  proof (cases "isCacheValid ?k2 ?w1")
    case True
    then have "?k2 = ?k1" using w1 by (auto simp: isCacheValid_def split: if_splits option.splits)
    then have "fst (getNewsList l2 o2 c f q ?w1) = Inr (NewsList rows1 ?n)"
      using True w1 by (simp add: getNewsList_def Let_def cache_data_def)
    then show ?thesis using r1 by blast
  next
    case False
    obtain rows2 where "fst (getNewsList l2 o2 c f q ?w1) = Inr (NewsList rows2 ?n)"
      using getNewsList_reads_store[OF False assms(3)] w1 by auto
    then show ?thesis using r1 by blast
  qed
qed

lemma number_to_string_small:
  "number_to_string 0 = ''0''" "number_to_string 5 = ''5''" "number_to_string 10 = ''10''"
  by (simp_all add: number_to_string_def nat_to_string_def string_of_nat.simps char_of_def
        bit_iff_odd)

text \<open>
  C5. The total is not the same for every limit and offset once the cache answers. The key
  of a list prints a search text left out as \<open>undefined\<close>, which is also what the search
  text \<open>undefined\<close> prints as. On the small store, after \<open>getNewsList({})\<close> has
  stored its result (total 1) under \<open>news_list_10_0_undefined_false_undefined\<close>, the
  call with the search text \<open>undefined\<close> and limit 10 is answered from that entry with
  total 1, while the same call with limit 5 is answered by the store with total 0: one
  store, one set of filters, two totals.
\<close>

theorem total_changes_with_limit_after_key_collision:
  "fst (getNewsList None None None None None (fresh [])) = Inr (NewsList [wave_article] 1)
   \<and> fst (getNewsList (Some 10) None None None (Some ''undefined'')
            (snd (getNewsList None None None None None (fresh []))))
       = Inr (NewsList [wave_article] 1)
   \<and> fst (getNewsList (Some 5) None None None (Some ''undefined'')
            (snd (getNewsList None None None None None (fresh []))))
       = Inr (NewsList [] 0)"
proof -
  have key: "news_list_key 10 0 None False None = ''news_list_10_0_undefined_false_undefined''"
    "news_list_key 10 0 None False (Some ''undefined'') = ''news_list_10_0_undefined_false_undefined''"
    "news_list_key 5 0 None False (Some ''undefined'') = ''news_list_5_0_undefined_false_undefined''"
    by (simp_all add: news_list_key_def number_to_string_small string_of_bool_def)
  have first: "getNewsList None None None None None (fresh []) =
      (Inr (NewsList [wave_article] 1),
       \<lparr>store = small_store,
        cache = [''news_list_10_0_undefined_false_undefined''
                   \<mapsto> \<lparr>data = NewsList [wave_article] 1, timestamp = 1000\<rparr>],
        clock = 1000, outcomes = []\<rparr>)"
    by (simp add: getNewsList_def or_default_def searchParam_def key Let_def)
       (simp add: executeQuery_def select_news_list_def count_news_def list_where_def joined_def
          isCacheValid_def cache_store_def small_defs Let_def key)
  have hit: "fst (getNewsList (Some 10) None None None (Some ''undefined'')
            (snd (getNewsList None None None None None (fresh []))))
       = Inr (NewsList [wave_article] 1)"
    unfolding first
    by (simp add: getNewsList_def or_default_def key Let_def isCacheValid_def cache_data_def
          CACHE_TTL_def)
  have miss: "fst (getNewsList (Some 5) None None None (Some ''undefined'')
            (snd (getNewsList None None None None None (fresh []))))
       = Inr (NewsList [] 0)"
    unfolding first
    by (simp add: getNewsList_def or_default_def searchParam_def key Let_def isCacheValid_def)
       (simp add: executeQuery_def select_news_list_def count_news_def list_where_def joined_def
          cache_store_def small_store_def wave_def sketch_def published_def lower_def Let_def key)
  show ?thesis using first hit miss by simp
qed

section \<open>Creating an article through the route handler\<close>

lemma createNews_fails:
  "next_fails w \<Longrightarrow> \<exists>w1. createNews nd w = (Inl StoreError, w1) \<and> store w1 = store w"
  by (auto simp: createNews_def elim!: executeQuery_fails[where stmt = "insert_news nd"])

text \<open>
  C7. A \<open>POST\<close> that passes authentication and validation while the store rejects the
  next statement is answered with status 201, \<open>success: true\<close> and the synthesized
  identifier \<open>Math.floor(Math.random() * 1000) + 100\<close> as data, and nothing is inserted.
  With mock mode off this is the \<open>catch\<close> around \<open>createNews\<close>; with mock mode on the
  insert is not attempted and the answer is the same.
\<close>

theorem post_reports_success_when_insert_fails:
  assumes "session_result req = Inr (Some ses)" and "user ses = Some u"
      and "body req = Some b"
      and "\<not> falsy_string (b_title b)" and "\<not> falsy_string (b_slug b)"
      and "\<not> falsy_string (b_content b)" and "\<not> falsy_number (b_categoryId b)"
      and "next_fails w"
  shows "res_status (fst (handler mockMode req rnd w)) = 201
         \<and> res_success (fst (handler mockMode req rnd w))
         \<and> res_data_id (fst (handler mockMode req rnd w)) = Some (int rnd + 100)
         \<and> store (snd (handler mockMode req rnd w)) = store w"
proof (cases mockMode)
  case True
  then show ?thesis using assms by (simp add: handler_def handler_try_def)
next
  case False
  let ?nd = "\<lparr>title = or_default (b_title b) [], slug = or_default (b_slug b) [],
              content = or_default (b_content b) [],
              excerpt = string_or (b_excerpt b) [],
              imageUrl = string_or (b_imageUrl b) [],
              categoryId = or_default (b_categoryId b) 0,
              authorId = user_id u,
              status = string_or (b_status b) ''draft'',
              isFeatured = or_default (b_isFeatured b) False\<rparr>"
  obtain w1 where "createNews ?nd w = (Inl StoreError, w1)" "store w1 = store w"
    using createNews_fails[OF assms(8), of ?nd] by blast
  then show ?thesis using assms False by (simp add: handler_def handler_try_def)
qed

theorem post_reports_success_when_insert_fails_witness:
  "next_fails (fresh [(True, 0)])
   \<and> fst (handler False post_request 42 (fresh [(True, 0)]))
       = \<lparr>res_status = 201, res_success = True, res_data_id = Some 142,
          res_message = Literal ''Noticia criada com sucesso (modo fallback)''\<rparr>
   \<and> store (snd (handler False post_request 42 (fresh [(True, 0)]))) = small_store"
proof -
  have a: "next_fails (fresh [(True, 0)])" by (simp add: next_fails_def fresh_def)
  have b: "fst (handler False post_request 42 (fresh [(True, 0)]))
       = \<lparr>res_status = 201, res_success = True, res_data_id = Some 142,
          res_message = Literal ''Noticia criada com sucesso (modo fallback)''\<rparr>"
    by (simp add: handler_def handler_try_def post_request_def falsy_string_def falsy_number_def
          createNews_def executeQuery_def fresh_def)
  have "res_status (fst (handler False post_request 42 (fresh [(True, 0)]))) = 201
         \<and> res_success (fst (handler False post_request 42 (fresh [(True, 0)])))
         \<and> res_data_id (fst (handler False post_request 42 (fresh [(True, 0)]))) = Some (int 42 + 100)
         \<and> store (snd (handler False post_request 42 (fresh [(True, 0)]))) = store (fresh [(True, 0)])"
    by (rule post_reports_success_when_insert_fails[where ses = "\<lparr>user = Some \<lparr>user_id = 1\<rparr>\<rparr>"
           and u = "\<lparr>user_id = 1\<rparr>" and b = "the (body post_request)"])
       (simp_all add: post_request_def falsy_string_def falsy_number_def a)
  then show ?thesis using a b by (simp add: fresh_def)
qed

end
